theory Spec2Isabelle
  imports Main
begin

section \<open>Go values shared by the components\<close>

text \<open>
  A Go \<^verbatim>\<open>error\<close> is modelled by its message (\<^verbatim>\<open>errors.New\<close>, \<^verbatim>\<open>errors.Errorf\<close> and
  the errors of a library all carry one; the tests of the repository compare errors
  through their messages). \<open>Exhausted\<close> is the terminal error of a finished iterator.
\<close>

datatype error = Error string | Exhausted

section \<open>The streaming JSON array encoder (package json)\<close>

subsection \<open>The sink: an \<^verbatim>\<open>io.Writer\<close>\<close>

text \<open>
  An \<^verbatim>\<open>io.Writer\<close> is any value with a method \<^verbatim>\<open>Write(p []byte) (n int, err error)\<close>.
  It is modelled by its own state \<open>'d\<close> and its method, a function from that state and
  the slice to the new state, the count \<open>n\<close> and the error (\<open>None\<close> is Go's \<^verbatim>\<open>nil\<close>).
  The bytes that reached the stream are kept beside the writer's state: by the contract of
  \<^verbatim>\<open>io.Writer\<close>, a call that returns \<open>n\<close> has written the first \<open>n\<close> bytes of \<open>p\<close>.
\<close>

type_synonym 'd Writer = "'d \<Rightarrow> string \<Rightarrow> 'd \<times> nat \<times> error option"

record 'd sink =
  dev :: 'd
  written :: string

definition sink_Write :: "'d Writer \<Rightarrow> 'd sink \<Rightarrow> string \<Rightarrow> 'd sink \<times> nat \<times> error option" where
  "sink_Write Write s p =
     (case Write (dev s) p of
        (d', n, err) \<Rightarrow> (\<lparr>dev = d', written = written s @ take n p\<rparr>, n, err))"

text \<open>
  The contract of \<^verbatim>\<open>io.Writer\<close>: a call that returns no error has written the whole slice
  (\<^verbatim>\<open>Write must return a non-nil error if it returns n < len(p)\<close>).
\<close>

definition Writer_contract :: "'d Writer \<Rightarrow> bool" where
  "Writer_contract Write = (\<forall>d p d' n. Write d p = (d', n, None) \<longrightarrow> n = length p)"

text \<open>Two concrete writers: a \<^verbatim>\<open>bytes.Buffer\<close>, which takes everything, and a writer with a
  quota of bytes left, which writes what fits and fails when the slice does not fit.\<close>

definition buffer_Write :: "unit Writer" where
  "buffer_Write d p = (d, length p, None)"

definition quota_Write :: "nat Writer" where
  "quota_Write d p =
     (if length p \<le> d then (d - length p, length p, None)
      else (0, d, Some (Error ''short write'')))"

subsection \<open>The encoder\<close>

record 'd MCPGVKEventEncoder =
  w :: "'d sink"
  wroteFirstItem :: bool

text \<open>\<^verbatim>\<open>NewMCPGVKEventEncoder\<close>: writes the open bracket; on a failed write no encoder is
  returned (the sink, which the caller still holds, is returned with the error).\<close>

definition NewMCPGVKEventEncoder ::
  "'d Writer \<Rightarrow> 'd sink \<Rightarrow> (error \<times> 'd sink) + 'd MCPGVKEventEncoder" where
  "NewMCPGVKEventEncoder Write s =
     (case sink_Write Write s ''['' of
        (s', _, Some err) \<Rightarrow> Inl (err, s')
      | (s', _, None) \<Rightarrow> Inr \<lparr>w = s', wroteFirstItem = False\<rparr>)"

text \<open>\<^verbatim>\<open>Encode\<close>. \<^verbatim>\<open>json.Marshal\<close> belongs to the standard library and is a parameter:
  it returns the bytes of the event or an error. The encoder is mutated in place in the
  source; here the new encoder is returned with the error.\<close>

definition Encode ::
  "('e \<Rightarrow> error + string) \<Rightarrow> 'd Writer \<Rightarrow> 'd MCPGVKEventEncoder \<Rightarrow> 'e
     \<Rightarrow> 'd MCPGVKEventEncoder \<times> error option" where
  "Encode Marshal Write e event =
     (let b = [];
          b = (if wroteFirstItem e then b @ '','' else b);
          b = b @ [CHR 0x0A]
      in case Marshal event of
           Inl err \<Rightarrow> (e, Some err)
         | Inr eventBytes \<Rightarrow>
             (let b = b @ eventBytes
              in case sink_Write Write (w e) b of
                   (s', _, None) \<Rightarrow> (e\<lparr>w := s', wroteFirstItem := True\<rparr>, None)
                 | (s', _, Some err) \<Rightarrow> (e\<lparr>w := s'\<rparr>, Some err)))"

text \<open>\<^verbatim>\<open>Close\<close>: writes newline, close bracket, newline; returns the error of the write.\<close>

definition Close ::
  "'d Writer \<Rightarrow> 'd MCPGVKEventEncoder \<Rightarrow> 'd MCPGVKEventEncoder \<times> error option" where
  "Close Write e =
     (case sink_Write Write (w e) [CHR 0x0A, CHR '']'', CHR 0x0A] of
        (s', _, err) \<Rightarrow> (e\<lparr>w := s'\<rparr>, err))"

subsection \<open>JSON texts\<close>

text \<open>
  The claims about the encoder speak of the written bytes parsed as JSON. The reader below
  is the grammar of RFC 8259 as a one-pass machine with a stack of open containers,
  restricted to integer numbers and to strings without escape sequences (neither occurs in
  the streams considered). \<open>parse_json\<close> returns the value of a text, or \<open>None\<close> when the
  text is not one JSON value between optional whitespace.
\<close>

datatype json =
  JNull | JBool bool | JNumber int | JString string
  | JArray "json list" | JObject "(string \<times> json) list"

datatype frame = FArr "json list" | FObj "(string \<times> json) list" | FKey string

datatype mode =
  Value | ArrStart | ObjStart | Key | KeyStr string | Colon string | Str string
  | NumMinus | NumZero bool | NumDigits bool nat | Lit string json
  | After | Done json | Fail

type_synonym pstate = "frame list \<times> mode"

definition is_ws :: "char \<Rightarrow> bool" where
  "is_ws c \<longleftrightarrow> c = CHR '' '' \<or> c = CHR 0x09 \<or> c = CHR 0x0A \<or> c = CHR 0x0D"

definition digit_of :: "char \<Rightarrow> nat option" where
  "digit_of = map_of (zip ''0123456789'' [0, 1, 2, 3, 4, 5, 6, 7, 8, 9])"

definition plain_char :: "char \<Rightarrow> bool" where
  "plain_char c \<longleftrightarrow> c \<noteq> CHR 0x22 \<and> c \<noteq> CHR 0x5C \<and> (32::nat) \<le> of_char c"

definition signed :: "bool \<Rightarrow> nat \<Rightarrow> int" where
  "signed neg n = (if neg then - int n else int n)"

text \<open>A value is complete: it is the whole text, the next element of the open array, or
  the value of the pending key of the open object.\<close>

fun complete :: "frame list \<Rightarrow> json \<Rightarrow> pstate" where
  "complete [] v = ([], Done v)"
| "complete (FArr xs # st) v = (FArr (xs @ [v]) # st, After)"
| "complete (FKey k # FObj ms # st) v = (FObj (ms @ [(k, v)]) # st, After)"
| "complete st v = (st, Fail)"

definition close_array :: "frame list \<Rightarrow> pstate" where
  "close_array st = (case st of FArr xs # st' \<Rightarrow> complete st' (JArray xs) | _ \<Rightarrow> (st, Fail))"

definition close_object :: "frame list \<Rightarrow> pstate" where
  "close_object st = (case st of FObj ms # st' \<Rightarrow> complete st' (JObject ms) | _ \<Rightarrow> (st, Fail))"

definition start_value :: "frame list \<Rightarrow> char \<Rightarrow> pstate" where
  "start_value st c =
     (if c = CHR ''['' then (FArr [] # st, ArrStart)
      else if c = CHR ''{'' then (FObj [] # st, ObjStart)
      else if c = CHR 0x22 then (st, Str [])
      else if c = CHR ''-'' then (st, NumMinus)
      else if c = CHR ''t'' then (st, Lit ''rue'' (JBool True))
      else if c = CHR ''f'' then (st, Lit ''alse'' (JBool False))
      else if c = CHR ''n'' then (st, Lit ''ull'' JNull)
      else case digit_of c of
             Some d \<Rightarrow> (if d = 0 then (st, NumZero False) else (st, NumDigits False d))
           | None \<Rightarrow> (st, Fail))"

text \<open>The character after a complete value: whitespace, a separator or a closing bracket.\<close>

fun delim :: "pstate \<Rightarrow> char \<Rightarrow> pstate" where
  "delim (st, After) c =
     (if is_ws c then (st, After)
      else if c = CHR '','' then
        (case st of FArr xs # st' \<Rightarrow> (st, Value) | FObj ms # st' \<Rightarrow> (st, Key) | _ \<Rightarrow> (st, Fail))
      else if c = CHR '']'' then close_array st
      else if c = CHR ''}'' then close_object st
      else (st, Fail))"
| "delim (st, Done v) c = (if is_ws c then (st, Done v) else (st, Fail))"
| "delim (st, m) c = (st, Fail)"

fun step :: "pstate \<Rightarrow> char \<Rightarrow> pstate" where
  "step (st, Value) c = (if is_ws c then (st, Value) else start_value st c)"
| "step (st, ArrStart) c =
     (if is_ws c then (st, ArrStart)
      else if c = CHR '']'' then close_array st
      else start_value st c)"
| "step (st, ObjStart) c =
     (if is_ws c then (st, ObjStart)
      else if c = CHR ''}'' then close_object st
      else if c = CHR 0x22 then (st, KeyStr [])
      else (st, Fail))"
| "step (st, Key) c =
     (if is_ws c then (st, Key) else if c = CHR 0x22 then (st, KeyStr []) else (st, Fail))"
| "step (st, KeyStr k) c =
     (if c = CHR 0x22 then (st, Colon k)
      else if plain_char c then (st, KeyStr (k @ [c]))
      else (st, Fail))"
| "step (st, Colon k) c =
     (if is_ws c then (st, Colon k)
      else if c = CHR '':'' then (FKey k # st, Value)
      else (st, Fail))"
| "step (st, Str s) c =
     (if c = CHR 0x22 then complete st (JString s)
      else if plain_char c then (st, Str (s @ [c]))
      else (st, Fail))"
| "step (st, NumMinus) c =
     (case digit_of c of
        Some d \<Rightarrow> (if d = 0 then (st, NumZero True) else (st, NumDigits True d))
      | None \<Rightarrow> (st, Fail))"
| "step (st, NumZero neg) c =
     (case digit_of c of
        Some d \<Rightarrow> (st, Fail)
      | None \<Rightarrow> delim (complete st (JNumber 0)) c)"
| "step (st, NumDigits neg n) c =
     (case digit_of c of
        Some d \<Rightarrow> (st, NumDigits neg (10 * n + d))
      | None \<Rightarrow> delim (complete st (JNumber (signed neg n))) c)"
| "step (st, Lit [] v) c = (st, Fail)"
| "step (st, Lit (x # xs) v) c =
     (if c = x then (if xs = [] then complete st v else (st, Lit xs v)) else (st, Fail))"
| "step (st, After) c = delim (st, After) c"
| "step (st, Done v) c = delim (st, Done v) c"
| "step (st, Fail) c = (st, Fail)"

fun run :: "pstate \<Rightarrow> string \<Rightarrow> pstate" where
  "run s [] = s"
| "run s (c # cs) = run (step s c) cs"

fun finish :: "pstate \<Rightarrow> json option" where
  "finish ([], Done v) = Some v"
| "finish ([], NumZero neg) = Some (JNumber 0)"
| "finish ([], NumDigits neg n) = Some (JNumber (signed neg n))"
| "finish s = None"

definition parse_json :: "string \<Rightarrow> json option" where
  "parse_json s = finish (run ([], Value) s)"

text \<open>The two records of the round-trip scenario, as the bytes \<open>json.Marshal\<close> returns.\<close>

definition record_a :: string where
  \<open>record_a = ''{"a":1}''\<close>

definition record_b :: string where
  \<open>record_b = ''{"b":2}''\<close>

section \<open>The robot delete command (package robot)\<close>

text \<open>
  \<^verbatim>\<open>errors.Errorf\<close> with the two formats of the command, each with two \<^verbatim>\<open>%s\<close> verbs.
\<close>

definition errMultipleRobotFmt :: "string \<Rightarrow> string \<Rightarrow> error" where
  "errMultipleRobotFmt name account =
     Error (''found multiple robots with name '' @ name @ '' in '' @ account)"

definition errFindRobotFmt :: "string \<Rightarrow> string \<Rightarrow> error" where
  "errFindRobotFmt name account = Error (''could not find robot '' @ name @ '' in '' @ account)"

text \<open>A robot of the listing (its name and its \<^verbatim>\<open>uuid.UUID\<close>) and the flags of the command.\<close>

type_synonym UUID = string

record Robot =
  Name :: string
  ID :: UUID

record deleteCmd =
  Name :: string
  Force :: bool

text \<open>
  The loop of \<^verbatim>\<open>Run\<close> over the listing: \<open>idp\<close> is the remembered identifier, the pointer \<^verbatim>\<open>id\<close> of the source (\<open>None\<close> is
  nil); the result is the error of the early return, or the identifier after the
  last robot.
\<close>

fun find_robot :: "deleteCmd \<Rightarrow> string \<Rightarrow> UUID option \<Rightarrow> Robot list \<Rightarrow> error + UUID option" where
  "find_robot c account idp [] = Inr idp"
| "find_robot c account idp (r # rs) =
     (if Robot.Name r = deleteCmd.Name c then
        (if idp \<noteq> None \<and> \<not> Force c
         then Inl (errMultipleRobotFmt (deleteCmd.Name c) account)
         else find_robot c account (Some (ID r)) rs)
      else find_robot c account idp rs)"

text \<open>
  \<^verbatim>\<open>Run\<close>. The two clients are remote services: \<open>listed\<close> is what \<^verbatim>\<open>ListRobots\<close> returns for
  the account and \<open>Delete\<close> is \<^verbatim>\<open>rc.Delete\<close>. The result is the error returned (\<open>None\<close> is
  nil), the identifiers \<^verbatim>\<open>rc.Delete\<close> was called with, in order, and the lines printed.
\<close>

definition Run ::
  "deleteCmd \<Rightarrow> error + Robot list \<Rightarrow> (UUID \<Rightarrow> error option) \<Rightarrow> string
     \<Rightarrow> error option \<times> UUID list \<times> string list" where
  "Run c listed Delete account =
     (case listed of
        Inl err \<Rightarrow> (Some err, [], [])
      | Inr rs \<Rightarrow>
          if length rs = 0 then (Some (errFindRobotFmt (deleteCmd.Name c) account), [], [])
          else
            (case find_robot c account None rs of
               Inl err \<Rightarrow> (Some err, [], [])
             | Inr None \<Rightarrow> (Some (errFindRobotFmt (deleteCmd.Name c) account), [], [])
             | Inr (Some idp) \<Rightarrow>
                 (case Delete idp of
                    Some err \<Rightarrow> (Some err, [idp], [])
                  | None \<Rightarrow> (None, [idp], [account @ ''/'' @ deleteCmd.Name c @ '' deleted'']))))"

text \<open>The robots of a listing that carry the requested name, in the order of the listing.\<close>

definition matches :: "deleteCmd \<Rightarrow> Robot list \<Rightarrow> Robot list" where
  "matches c rs = filter (\<lambda>r. Robot.Name r = deleteCmd.Name c) rs"

section \<open>Properties of the encoder\<close>

lemma sink_Write_ok:
  assumes "Writer_contract Write" and "sink_Write Write s p = (s', n, None)"
  shows "written s' = written s @ p"
  using assms by (auto simp: Writer_contract_def sink_Write_def split: prod.splits)

lemma NewMCPGVKEventEncoder_ok:
  assumes "Writer_contract Write" and "NewMCPGVKEventEncoder Write s = Inr e"
  shows "written (w e) = written s @ ''[''" and "\<not> wroteFirstItem e"
proof -
  obtain s' n err where sw: "sink_Write Write s ''['' = (s', n, err)"
    by (cases "sink_Write Write s ''[''") auto
  with assms(2) have "err = None" and e: "e = \<lparr>w = s', wroteFirstItem = False\<rparr>"
    by (auto simp: NewMCPGVKEventEncoder_def split: option.splits)
  with sw sink_Write_ok[OF assms(1)] show "written (w e) = written s @ ''[''"
    by auto
  from e show "\<not> wroteFirstItem e" by simp
qed

lemma Encode_ok:
  assumes "Writer_contract Write" and "Encode Marshal Write e ev = (e', None)"
  shows "\<exists>j. Marshal ev = Inr j \<and> wroteFirstItem e' \<and>
             written (w e') = written (w e) @ (if wroteFirstItem e then '','' else []) @ [CHR 0x0A] @ j"
proof (cases "Marshal ev")
  case (Inl err)
  with assms(2) show ?thesis by (simp add: Encode_def)
next
  case (Inr j)
  let ?b = "(if wroteFirstItem e then '','' else []) @ [CHR 0x0A] @ j"
  obtain s' n err where sw: "sink_Write Write (w e) ?b = (s', n, err)"
    by (cases "sink_Write Write (w e) ?b") auto
  with assms(2) Inr have "err = None" and e': "e' = e\<lparr>w := s', wroteFirstItem := True\<rparr>"
    by (auto simp: Encode_def Let_def split: option.splits if_splits)
  with sw sink_Write_ok[OF assms(1)] have "written s' = written (w e) @ ?b"
    by blast
  with Inr e' show ?thesis by simp
qed

lemma Close_ok:
  assumes "Writer_contract Write" and "Close Write e = (e', None)"
  shows "written (w e') = written (w e) @ [CHR 0x0A, CHR '']'', CHR 0x0A]"
    and "wroteFirstItem e' = wroteFirstItem e"
proof -
  let ?b = "[CHR 0x0A, CHR '']'', CHR 0x0A]"
  obtain s' n err where sw: "sink_Write Write (w e) ?b = (s', n, err)"
    by (cases "sink_Write Write (w e) ?b") auto
  with assms(2) have "err = None" and e': "e' = e\<lparr>w := s'\<rparr>"
    by (auto simp: Close_def)
  with sw sink_Write_ok[OF assms(1)] show "written (w e') = written (w e) @ ?b"
    by auto
  from e' show "wroteFirstItem e' = wroteFirstItem e" by simp
qed

lemma buffer_contract: "Writer_contract buffer_Write"
  by (simp add: Writer_contract_def buffer_Write_def)

lemma quota_contract: "Writer_contract quota_Write"
  by (auto simp: Writer_contract_def quota_Write_def split: if_splits)

text \<open>
  C8. \<open>Encode\<close> and the separator state. When \<open>json.Marshal\<close> fails, \<open>Encode\<close> returns its
  error and the encoder, sink included, is the one it was given: nothing is written and
  \<open>wroteFirstItem\<close> is unchanged. When the write to the sink fails, \<open>Encode\<close> returns the
  error of the write and \<open>wroteFirstItem\<close> keeps its value. \<open>wroteFirstItem\<close> changes only
  from false to true, and only in a call whose write returned no error.
\<close>

theorem C8_Encode_separator_state:
  "(Marshal ev = Inl err \<longrightarrow> Encode Marshal Write e ev = (e, Some err)) \<and>
   (Marshal ev = Inr j \<and>
    sink_Write Write (w e) ((if wroteFirstItem e then '','' else []) @ [CHR 0x0A] @ j) = (s', n, Some err)
      \<longrightarrow> snd (Encode Marshal Write e ev) = Some err \<and>
          wroteFirstItem (fst (Encode Marshal Write e ev)) = wroteFirstItem e) \<and>
   (wroteFirstItem (fst (Encode Marshal Write e ev)) \<noteq> wroteFirstItem e
      \<longrightarrow> \<not> wroteFirstItem e \<and> wroteFirstItem (fst (Encode Marshal Write e ev)) \<and>
          snd (Encode Marshal Write e ev) = None \<and>
          (\<exists>j s' n. Marshal ev = Inr j \<and>
             sink_Write Write (w e) ((if wroteFirstItem e then '','' else []) @ [CHR 0x0A] @ j)
               = (s', n, None)))"
proof (intro conjI impI)
  assume "Marshal ev = Inl err"
  then show "Encode Marshal Write e ev = (e, Some err)"
    by (simp add: Encode_def)
next
  assume a: "Marshal ev = Inr j \<and>
    sink_Write Write (w e) ((if wroteFirstItem e then '','' else []) @ [CHR 0x0A] @ j) = (s', n, Some err)"
  then show "snd (Encode Marshal Write e ev) = Some err"
    by (auto simp: Encode_def)
  from a show "wroteFirstItem (fst (Encode Marshal Write e ev)) = wroteFirstItem e"
    by (auto simp: Encode_def)
next
  assume changed: "wroteFirstItem (fst (Encode Marshal Write e ev)) \<noteq> wroteFirstItem e"
  let ?sep = "(if wroteFirstItem e then '','' else [])"
  have ok: "\<exists>j s' n. Marshal ev = Inr j \<and> sink_Write Write (w e) (?sep @ [CHR 0x0A] @ j) = (s', n, None)"
  proof (cases "Marshal ev")
    case (Inl x)
    with changed show ?thesis by (simp add: Encode_def)
  next
    case (Inr j)
    obtain s' n r where sw: "sink_Write Write (w e) (?sep @ [CHR 0x0A] @ j) = (s', n, r)"
      by (cases "sink_Write Write (w e) (?sep @ [CHR 0x0A] @ j)") auto
    with changed Inr have "r = None"
      by (cases r) (auto simp: Encode_def)
    with Inr sw show ?thesis by blast
  qed
  then obtain j s' n where m: "Marshal ev = Inr j"
    and sw: "sink_Write Write (w e) (?sep @ [CHR 0x0A] @ j) = (s', n, None)"
    by blast
  then have enc: "Encode Marshal Write e ev = (e\<lparr>w := s', wroteFirstItem := True\<rparr>, None)"
    by (auto simp: Encode_def)
  with changed show "\<not> wroteFirstItem e" by auto
  from enc show "wroteFirstItem (fst (Encode Marshal Write e ev))" by simp
  from enc show "snd (Encode Marshal Write e ev) = None" by simp
  from ok show "\<exists>j s' n. Marshal ev = Inr j \<and>
      sink_Write Write (w e) (?sep @ [CHR 0x0A] @ j) = (s', n, None)" .
qed

theorem C8_Encode_separator_state_witness:
  "Encode (\<lambda>ev. Inl (Error ''unsupported type'')) quota_Write
       \<lparr>w = \<lparr>dev = 9, written = ''[''\<rparr>, wroteFirstItem = False\<rparr> ''{}''
     = (\<lparr>w = \<lparr>dev = 9, written = ''[''\<rparr>, wroteFirstItem = False\<rparr>, Some (Error ''unsupported type'')) \<and>
   sink_Write quota_Write \<lparr>dev = 2, written = ''[''\<rparr> ([] @ [CHR 0x0A] @ ''{}'')
     = (\<lparr>dev = 0, written = [CHR ''['', CHR 0x0A, CHR ''{'']\<rparr>, 2, Some (Error ''short write'')) \<and>
   snd (Encode Inr quota_Write \<lparr>w = \<lparr>dev = 2, written = ''[''\<rparr>, wroteFirstItem = False\<rparr> ''{}'')
     = Some (Error ''short write'') \<and>
   wroteFirstItem (fst (Encode Inr quota_Write \<lparr>w = \<lparr>dev = 2, written = ''[''\<rparr>, wroteFirstItem = False\<rparr> ''{}''))
     = False \<and>
   wroteFirstItem (fst (Encode Inr quota_Write \<lparr>w = \<lparr>dev = 9, written = ''[''\<rparr>, wroteFirstItem = False\<rparr> ''{}''))
     = True \<and>
   snd (Encode Inr quota_Write \<lparr>w = \<lparr>dev = 9, written = ''[''\<rparr>, wroteFirstItem = False\<rparr> ''{}'') = None"
proof -
  let ?e9 = "\<lparr>w = \<lparr>dev = 9::nat, written = ''[''\<rparr>, wroteFirstItem = False\<rparr>"
  let ?e2 = "\<lparr>w = \<lparr>dev = 2::nat, written = ''[''\<rparr>, wroteFirstItem = False\<rparr>"
  let ?bad = "\<lambda>ev::string. (Inl (Error ''unsupported type'') :: error + string)"
  let ?good = "Inr :: string \<Rightarrow> error + string"
  have m1: "?bad ''{}'' = Inl (Error ''unsupported type'')" by simp
  have m2: "?good ''{}'' = Inr ''{}''" by simp
  have sw: "sink_Write quota_Write (w ?e2) ((if wroteFirstItem ?e2 then '','' else []) @ [CHR 0x0A] @ ''{}'')
      = (\<lparr>dev = 0, written = [CHR ''['', CHR 0x0A, CHR ''{'']\<rparr>, 2, Some (Error ''short write''))"
    by (simp add: sink_Write_def quota_Write_def)
  have ch: "wroteFirstItem (fst (Encode ?good quota_Write ?e9 ''{}'')) \<noteq> wroteFirstItem ?e9"
    by (simp add: Encode_def sink_Write_def quota_Write_def)
  from C8_Encode_separator_state
         [of ?bad "''{}''" "Error ''unsupported type''" quota_Write ?e9]
       m1
  have c1: "Encode ?bad quota_Write ?e9 ''{}'' = (?e9, Some (Error ''unsupported type''))"
    by blast
  from C8_Encode_separator_state
         [of ?good "''{}''" "Error ''short write''" quota_Write ?e2 "''{}''"
             "\<lparr>dev = 0, written = [CHR ''['', CHR 0x0A, CHR ''{'']\<rparr>" 2]
       m2 sw
  have c2: "snd (Encode ?good quota_Write ?e2 ''{}'') = Some (Error ''short write'') \<and>
            wroteFirstItem (fst (Encode ?good quota_Write ?e2 ''{}'')) = wroteFirstItem ?e2"
    by blast
  from C8_Encode_separator_state [of ?good "''{}''" _ quota_Write ?e9] ch
  have c3: "wroteFirstItem (fst (Encode ?good quota_Write ?e9 ''{}'')) \<and>
            snd (Encode ?good quota_Write ?e9 ''{}'') = None"
    by blast
  from c1 c2 c3 sw show ?thesis by simp
qed

lemma run_append: "run s (a @ b) = run (run s a) b"
  by (induction a arbitrary: s) auto

lemma run_Fail: "run (st, Fail) s = (st, Fail)"
  by (induction s) auto

lemma run_Done:
  "run ([], Done v) s = (if list_all is_ws s then ([], Done v) else ([], Fail))"
  by (induction s) (auto simp: run_Fail)

lemma run_ws_Value: "list_all is_ws s \<Longrightarrow> run ([], Value) s = ([], Value)"
  by (induction s) auto

lemma parse_json_not_blank: "parse_json j \<noteq> None \<Longrightarrow> \<not> list_all is_ws j"
  by (auto simp: parse_json_def run_ws_Value)

lemma finish_JArray: "finish s = Some (JArray vs) \<Longrightarrow> s = ([], Done (JArray vs))"
  by (cases s rule: finish.cases) auto

lemma parse_json_extend:
  assumes "parse_json t = Some (JArray vs)" and "\<not> list_all is_ws x"
  shows "parse_json (t @ x) = None"
proof -
  from assms(1) have "run ([], Value) t = ([], Done (JArray vs))"
    by (simp add: parse_json_def finish_JArray)
  with assms(2) show ?thesis
    by (simp add: parse_json_def run_append run_Done)
qed

text \<open>
  C6, as amended. For every writer that honours its contract and every two records encoded
  with no error between a successful construction and a successful \<open>Close\<close>, the bytes
  added to the sink are: open bracket, newline, the first record, comma, newline, the second
  record, newline, close bracket, newline. The comma follows the first record directly: the
  newline stands before each record, not after it.
\<close>

theorem C6_two_records_stream:
  assumes "Writer_contract Write"
    and "NewMCPGVKEventEncoder Write s = Inr e0"
    and "Encode Marshal Write e0 r1 = (e1, None)"
    and "Encode Marshal Write e1 r2 = (e2, None)"
    and "Close Write e2 = (e3, None)"
  shows "\<exists>j1 j2. Marshal r1 = Inr j1 \<and> Marshal r2 = Inr j2 \<and>
           written (w e3) =
             written s @ ''['' @ [CHR 0x0A] @ j1 @ '','' @ [CHR 0x0A] @ j2 @ [CHR 0x0A] @ '']'' @ [CHR 0x0A]"
proof -
  from NewMCPGVKEventEncoder_ok[OF assms(1,2)]
  have w0: "written (w e0) = written s @ ''[''" and f0: "\<not> wroteFirstItem e0" .
  from Encode_ok[OF assms(1,3)] f0 obtain j1 where m1: "Marshal r1 = Inr j1"
    and f1: "wroteFirstItem e1" and w1: "written (w e1) = written (w e0) @ [CHR 0x0A] @ j1"
    by auto
  from Encode_ok[OF assms(1,4)] f1 obtain j2 where m2: "Marshal r2 = Inr j2"
    and w2: "written (w e2) = written (w e1) @ '','' @ [CHR 0x0A] @ j2"
    by auto
  from Close_ok(1)[OF assms(1,5)]
  have "written (w e3) = written (w e2) @ [CHR 0x0A, CHR '']'', CHR 0x0A]" .
  with w0 w1 w2 m1 m2 show ?thesis by simp
qed

text \<open>
  The theorem at a \<^verbatim>\<open>bytes.Buffer\<close> and the records \<open>record_a\<close>, \<open>record_b\<close>.
\<close>

theorem C6_two_records_stream_witness:
  \<open>NewMCPGVKEventEncoder buffer_Write \<lparr>dev = (), written = []\<rparr>
     = Inr \<lparr>w = \<lparr>dev = (), written = ''[''\<rparr>, wroteFirstItem = False\<rparr> \<and>
   written (w (fst (Close buffer_Write
      (fst (Encode Inr buffer_Write
         (fst (Encode Inr buffer_Write \<lparr>w = \<lparr>dev = (), written = ''[''\<rparr>, wroteFirstItem = False\<rparr>
            record_a)) record_b)))))
     = ''[\<newline>{"a":1},\<newline>{"b":2}\<newline>]\<newline>''\<close>
proof -
  let ?s = "\<lparr>dev = (), written = []\<rparr>"
  let ?e0 = "\<lparr>w = \<lparr>dev = (), written = ''[''\<rparr>, wroteFirstItem = False\<rparr>"
  let ?e1 = "fst (Encode Inr buffer_Write ?e0 record_a)"
  let ?e2 = "fst (Encode Inr buffer_Write ?e1 record_b)"
  let ?e3 = "fst (Close buffer_Write ?e2)"
  have h0: "NewMCPGVKEventEncoder buffer_Write ?s = Inr ?e0"
    by (simp add: NewMCPGVKEventEncoder_def sink_Write_def buffer_Write_def)
  have h1: "Encode Inr buffer_Write ?e0 record_a = (?e1, None)"
    by (simp add: Encode_def sink_Write_def buffer_Write_def)
  have h2: "Encode Inr buffer_Write ?e1 record_b = (?e2, None)"
    by (simp add: Encode_def sink_Write_def buffer_Write_def)
  have h3: "Close buffer_Write ?e2 = (?e3, None)"
    by (simp add: Close_def sink_Write_def buffer_Write_def)
  from C6_two_records_stream[OF buffer_contract h0 h1 h2 h3]
  have "written (w ?e3) = ''['' @ [CHR 0x0A] @ record_a @ '','' @ [CHR 0x0A] @ record_b @ [CHR 0x0A] @ '']'' @ [CHR 0x0A]"
    by simp
  with h0 show ?thesis by (simp add: record_a_def record_b_def)
qed

text \<open>
  C6 as the claim states it fails: on an empty buffer every call succeeds and the bytes
  written are not the stream with a newline between the first record and the comma.
\<close>

theorem C6_counterexample:
  \<open>NewMCPGVKEventEncoder buffer_Write \<lparr>dev = (), written = []\<rparr>
     = Inr \<lparr>w = \<lparr>dev = (), written = ''[''\<rparr>, wroteFirstItem = False\<rparr> \<and>
   snd (Encode Inr buffer_Write \<lparr>w = \<lparr>dev = (), written = ''[''\<rparr>, wroteFirstItem = False\<rparr>
          record_a) = None \<and>
   snd (Encode Inr buffer_Write
         (fst (Encode Inr buffer_Write \<lparr>w = \<lparr>dev = (), written = ''[''\<rparr>, wroteFirstItem = False\<rparr>
            record_a)) record_b) = None \<and>
   snd (Close buffer_Write
      (fst (Encode Inr buffer_Write
         (fst (Encode Inr buffer_Write \<lparr>w = \<lparr>dev = (), written = ''[''\<rparr>, wroteFirstItem = False\<rparr>
            record_a)) record_b))) = None \<and>
   written (w (fst (Close buffer_Write
      (fst (Encode Inr buffer_Write
         (fst (Encode Inr buffer_Write \<lparr>w = \<lparr>dev = (), written = ''[''\<rparr>, wroteFirstItem = False\<rparr>
            record_a)) record_b)))))
     \<noteq> ''[\<newline>{"a":1}\<newline>,\<newline>{"b":2}\<newline>]\<newline>''\<close>
  by (simp add: NewMCPGVKEventEncoder_def Close_def Encode_def sink_Write_def buffer_Write_def
      record_a_def record_b_def)

text \<open>
  C7. For every writer that honours its contract, after a successful construction: closing
  at once leaves bytes that parse as the empty JSON array; encoding two events whose
  marshalled bytes are \<open>record_a\<close> and \<open>record_b\<close> and closing leaves bytes that parse as the
  array of the two objects, in this order. The bytes are those added to the sink since
  the construction began.
\<close>

theorem C7_round_trip:
  assumes "Writer_contract Write"
    and "NewMCPGVKEventEncoder Write s = Inr e0"
  shows "(Close Write e0 = (c0, None) \<longrightarrow>
            parse_json (drop (length (written s)) (written (w c0))) = Some (JArray [])) \<and>
         (Marshal r1 = Inr record_a \<and> Marshal r2 = Inr record_b \<and>
          Encode Marshal Write e0 r1 = (e1, None) \<and> Encode Marshal Write e1 r2 = (e2, None) \<and>
          Close Write e2 = (e3, None) \<longrightarrow>
            parse_json (drop (length (written s)) (written (w e3)))
              = Some (JArray [JObject [(''a'', JNumber 1)], JObject [(''b'', JNumber 2)]]))"
proof (intro conjI impI)
  assume c: "Close Write e0 = (c0, None)"
  from NewMCPGVKEventEncoder_ok(1)[OF assms] Close_ok(1)[OF assms(1) c]
  have "written (w c0) = written s @ [CHR ''['', CHR 0x0A, CHR '']'', CHR 0x0A]"
    by simp
  then have "drop (length (written s)) (written (w c0)) = [CHR ''['', CHR 0x0A, CHR '']'', CHR 0x0A]"
    by simp
  moreover have "parse_json [CHR ''['', CHR 0x0A, CHR '']'', CHR 0x0A] = Some (JArray [])"
    by (simp add: parse_json_def start_value_def is_ws_def close_array_def)
  ultimately show "parse_json (drop (length (written s)) (written (w c0))) = Some (JArray [])"
    by simp
next
  assume a: "Marshal r1 = Inr record_a \<and> Marshal r2 = Inr record_b \<and>
          Encode Marshal Write e0 r1 = (e1, None) \<and> Encode Marshal Write e1 r2 = (e2, None) \<and>
          Close Write e2 = (e3, None)"
  from NewMCPGVKEventEncoder_ok[OF assms]
  have w0: "written (w e0) = written s @ ''[''" and f0: "\<not> wroteFirstItem e0" .
  from a have enc1: "Encode Marshal Write e0 r1 = (e1, None)" by simp
  from a have enc2: "Encode Marshal Write e1 r2 = (e2, None)" by simp
  from a have cl: "Close Write e2 = (e3, None)" by simp
  from Encode_ok[OF assms(1) enc1] f0 a
  have f1: "wroteFirstItem e1" and w1: "written (w e1) = written (w e0) @ [CHR 0x0A] @ record_a"
    by auto
  from Encode_ok[OF assms(1) enc2] f1 a
  have w2: "written (w e2) = written (w e1) @ '','' @ [CHR 0x0A] @ record_b"
    by auto
  let ?out = "''['' @ [CHR 0x0A] @ record_a @ '','' @ [CHR 0x0A] @ record_b @ [CHR 0x0A, CHR '']'', CHR 0x0A]"
  from Close_ok(1)[OF assms(1) cl] w0 w1 w2
  have "written (w e3) = written s @ ?out"
    by simp
  then have "drop (length (written s)) (written (w e3)) = ?out"
    by simp
  moreover have "parse_json ?out = Some (JArray [JObject [(''a'', JNumber 1)], JObject [(''b'', JNumber 2)]])"
    by (simp add: record_a_def record_b_def parse_json_def start_value_def is_ws_def digit_of_def
        plain_char_def close_array_def close_object_def signed_def)
  ultimately show "parse_json (drop (length (written s)) (written (w e3)))
              = Some (JArray [JObject [(''a'', JNumber 1)], JObject [(''b'', JNumber 2)]])"
    by simp
qed

text \<open>
  The round trip on an empty \<^verbatim>\<open>bytes.Buffer\<close>.
\<close>

theorem C7_round_trip_witness:
  \<open>NewMCPGVKEventEncoder buffer_Write \<lparr>dev = (), written = []\<rparr>
     = Inr \<lparr>w = \<lparr>dev = (), written = ''[''\<rparr>, wroteFirstItem = False\<rparr> \<and>
   parse_json (written (w (fst (Close buffer_Write
       \<lparr>w = \<lparr>dev = (), written = ''[''\<rparr>, wroteFirstItem = False\<rparr>)))) = Some (JArray []) \<and>
   parse_json (written (w (fst (Close buffer_Write
      (fst (Encode Inr buffer_Write
         (fst (Encode Inr buffer_Write \<lparr>w = \<lparr>dev = (), written = ''[''\<rparr>, wroteFirstItem = False\<rparr>
            record_a)) record_b))))))
     = Some (JArray [JObject [(''a'', JNumber 1)], JObject [(''b'', JNumber 2)]])\<close>
proof -
  let ?s = "\<lparr>dev = (), written = []\<rparr>"
  let ?e0 = "\<lparr>w = \<lparr>dev = (), written = ''[''\<rparr>, wroteFirstItem = False\<rparr>"
  let ?c0 = "fst (Close buffer_Write ?e0)"
  let ?e1 = "fst (Encode Inr buffer_Write ?e0 record_a)"
  let ?e2 = "fst (Encode Inr buffer_Write ?e1 record_b)"
  let ?e3 = "fst (Close buffer_Write ?e2)"
  have h0: "NewMCPGVKEventEncoder buffer_Write ?s = Inr ?e0"
    by (simp add: NewMCPGVKEventEncoder_def sink_Write_def buffer_Write_def)
  have hc: "Close buffer_Write ?e0 = (?c0, None)"
    by (simp add: Close_def sink_Write_def buffer_Write_def)
  have h1: "Encode Inr buffer_Write ?e0 record_a = (?e1, None)"
    by (simp add: Encode_def sink_Write_def buffer_Write_def)
  have h2: "Encode Inr buffer_Write ?e1 record_b = (?e2, None)"
    by (simp add: Encode_def sink_Write_def buffer_Write_def)
  have h3: "Close buffer_Write ?e2 = (?e3, None)"
    by (simp add: Close_def sink_Write_def buffer_Write_def)
  from C7_round_trip[OF buffer_contract h0, where ?c0.0 = ?c0 and Marshal = Inr
        and ?r1.0 = record_a and ?r2.0 = record_b and ?e1.0 = ?e1 and ?e2.0 = ?e2 and ?e3.0 = ?e3]
    hc h1 h2 h3 h0
  show ?thesis by simp
qed

text \<open>
  C9. \<open>Close\<close> changes nothing of the encoder but the sink, so no call can tell that the
  encoder was closed. Let a first \<open>Close\<close> have returned no error and left a well-formed JSON
  array in the sink. If the sink accepts the write, a second \<open>Close\<close> writes the closing
  bytes again and returns no error; if \<open>json.Marshal\<close> returns a JSON text and the sink
  accepts the write, \<open>Encode\<close> writes the separator and the record after the closing bracket
  and returns no error. In both cases the bytes of the sink are no longer a JSON text.
\<close>

theorem C9_no_lifecycle:
  assumes "Close Write e = (e1, None)"
    and "parse_json (written (w e1)) = Some (JArray vs)"
  shows "wroteFirstItem e1 = wroteFirstItem e \<and>
    (Write (dev (w e1)) [CHR 0x0A, CHR '']'', CHR 0x0A] = (d', 3, None) \<longrightarrow>
       Close Write e1
         = (e1\<lparr>w := \<lparr>dev = d', written = written (w e1) @ [CHR 0x0A, CHR '']'', CHR 0x0A]\<rparr>\<rparr>, None) \<and>
       parse_json (written (w (fst (Close Write e1)))) = None) \<and>
    (Marshal ev = Inr j \<and> parse_json j \<noteq> None \<and>
     Write (dev (w e1)) ((if wroteFirstItem e1 then '','' else []) @ [CHR 0x0A] @ j)
       = (d'', length ((if wroteFirstItem e1 then '','' else []) @ [CHR 0x0A] @ j), None) \<longrightarrow>
       Encode Marshal Write e1 ev
         = (e1\<lparr>w := \<lparr>dev = d'', written = written (w e1) @
                (if wroteFirstItem e1 then '','' else []) @ [CHR 0x0A] @ j\<rparr>,
               wroteFirstItem := True\<rparr>, None) \<and>
       parse_json (written (w (fst (Encode Marshal Write e1 ev)))) = None)"
proof (intro conjI impI)
  from assms(1) show "wroteFirstItem e1 = wroteFirstItem e"
    by (auto simp: Close_def split: prod.splits)
next
  assume a: "Write (dev (w e1)) [CHR 0x0A, CHR '']'', CHR 0x0A] = (d', 3, None)"
  then show c: "Close Write e1
         = (e1\<lparr>w := \<lparr>dev = d', written = written (w e1) @ [CHR 0x0A, CHR '']'', CHR 0x0A]\<rparr>\<rparr>, None)"
    by (simp add: Close_def sink_Write_def)
  have "\<not> list_all is_ws [CHR 0x0A, CHR '']'', CHR 0x0A]"
    by (simp add: is_ws_def)
  from parse_json_extend[OF assms(2) this] c
  show "parse_json (written (w (fst (Close Write e1)))) = None"
    by simp
next
  let ?b = "(if wroteFirstItem e1 then '','' else []) @ [CHR 0x0A] @ j"
  assume a: "Marshal ev = Inr j \<and> parse_json j \<noteq> None \<and>
     Write (dev (w e1)) ?b = (d'', length ?b, None)"
  then have "sink_Write Write (w e1) ?b
      = (\<lparr>dev = d'', written = written (w e1) @ ?b\<rparr>, length ?b, None)"
    by (simp add: sink_Write_def)
  with a show c: "Encode Marshal Write e1 ev
         = (e1\<lparr>w := \<lparr>dev = d'', written = written (w e1) @ ?b\<rparr>, wroteFirstItem := True\<rparr>, None)"
    by (cases "wroteFirstItem e1") (simp_all add: Encode_def)
  from a have "\<not> list_all is_ws j"
    by (simp add: parse_json_not_blank)
  then have "\<not> list_all is_ws ?b"
    by simp
  from parse_json_extend[OF assms(2) this] c
  show "parse_json (written (w (fst (Encode Marshal Write e1 ev)))) = None"
    by simp
qed

text \<open>
  The theorem on a \<^verbatim>\<open>bytes.Buffer\<close> that holds one encoded record.
\<close>

theorem C9_no_lifecycle_witness:
  \<open>Close buffer_Write \<lparr>w = \<lparr>dev = (), written = ''[\<newline>{"a":1}''\<rparr>, wroteFirstItem = True\<rparr>
     = (\<lparr>w = \<lparr>dev = (), written = ''[\<newline>{"a":1}\<newline>]\<newline>''\<rparr>, wroteFirstItem = True\<rparr>, None) \<and>
   parse_json ''[\<newline>{"a":1}\<newline>]\<newline>'' = Some (JArray [JObject [(''a'', JNumber 1)]]) \<and>
   Close buffer_Write \<lparr>w = \<lparr>dev = (), written = ''[\<newline>{"a":1}\<newline>]\<newline>''\<rparr>, wroteFirstItem = True\<rparr>
     = (\<lparr>w = \<lparr>dev = (), written = ''[\<newline>{"a":1}\<newline>]\<newline>\<newline>]\<newline>''\<rparr>, wroteFirstItem = True\<rparr>, None) \<and>
   parse_json ''[\<newline>{"a":1}\<newline>]\<newline>\<newline>]\<newline>'' = None \<and>
   Encode Inr buffer_Write
       \<lparr>w = \<lparr>dev = (), written = ''[\<newline>{"a":1}\<newline>]\<newline>''\<rparr>, wroteFirstItem = True\<rparr> record_b
     = (\<lparr>w = \<lparr>dev = (), written = ''[\<newline>{"a":1}\<newline>]\<newline>,\<newline>{"b":2}''\<rparr>, wroteFirstItem = True\<rparr>, None) \<and>
   parse_json ''[\<newline>{"a":1}\<newline>]\<newline>,\<newline>{"b":2}'' = None\<close>
proof -
  let ?e = \<open>\<lparr>w = \<lparr>dev = (), written = ''[\<newline>{"a":1}''\<rparr>, wroteFirstItem = True\<rparr>\<close>
  let ?e1 = \<open>\<lparr>w = \<lparr>dev = (), written = ''[\<newline>{"a":1}\<newline>]\<newline>''\<rparr>, wroteFirstItem = True\<rparr>\<close>
  have h1: "Close buffer_Write ?e = (?e1, None)"
    by (simp add: Close_def sink_Write_def buffer_Write_def)
  have h2: "parse_json (written (w ?e1)) = Some (JArray [JObject [(''a'', JNumber 1)]])"
    by (simp add: parse_json_def start_value_def is_ws_def digit_of_def
        plain_char_def close_array_def close_object_def signed_def)
  have a1: "buffer_Write (dev (w ?e1)) [CHR 0x0A, CHR '']'', CHR 0x0A] = ((), 3, None)"
    by (simp add: buffer_Write_def)
  have a2: "(Inr :: string \<Rightarrow> error + string) record_b = Inr record_b" by simp
  have a3: "parse_json record_b \<noteq> None"
    by (simp add: record_b_def parse_json_def start_value_def is_ws_def digit_of_def
        plain_char_def close_array_def close_object_def signed_def)
  have a4: "buffer_Write (dev (w ?e1)) ((if wroteFirstItem ?e1 then '','' else []) @ [CHR 0x0A] @ record_b)
      = ((), length ((if wroteFirstItem ?e1 then '','' else []) @ [CHR 0x0A] @ record_b), None)"
    by (simp add: buffer_Write_def)
  from C9_no_lifecycle[OF h1 h2, where d' = "()" and d'' = "()" and Marshal = Inr
      and ev = record_b and j = record_b] a1 a2 a3 a4
  have c1: "Close buffer_Write ?e1
         = (?e1\<lparr>w := \<lparr>dev = (), written = written (w ?e1) @ [CHR 0x0A, CHR '']'', CHR 0x0A]\<rparr>\<rparr>, None)"
    and p1: "parse_json (written (w (fst (Close buffer_Write ?e1)))) = None"
    and c2: "Encode Inr buffer_Write ?e1 record_b
         = (?e1\<lparr>w := \<lparr>dev = (), written = written (w ?e1) @
                (if wroteFirstItem ?e1 then '','' else []) @ [CHR 0x0A] @ record_b\<rparr>,
               wroteFirstItem := True\<rparr>, None)"
    and p2: "parse_json (written (w (fst (Encode Inr buffer_Write ?e1 record_b)))) = None"
    by blast+
  from p1 have p1': \<open>parse_json ''[\<newline>{"a":1}\<newline>]\<newline>\<newline>]\<newline>'' = None\<close>
    unfolding c1 by simp
  from p2 have p2': \<open>parse_json ''[\<newline>{"a":1}\<newline>]\<newline>,\<newline>{"b":2}'' = None\<close>
    unfolding c2 by (simp add: record_b_def)
  from c1 have c1': \<open>Close buffer_Write ?e1
     = (\<lparr>w = \<lparr>dev = (), written = ''[\<newline>{"a":1}\<newline>]\<newline>\<newline>]\<newline>''\<rparr>, wroteFirstItem = True\<rparr>, None)\<close>
    by simp
  from c2 have c2': \<open>Encode Inr buffer_Write ?e1 record_b
     = (\<lparr>w = \<lparr>dev = (), written = ''[\<newline>{"a":1}\<newline>]\<newline>,\<newline>{"b":2}''\<rparr>, wroteFirstItem = True\<rparr>, None)\<close>
    by (simp add: record_b_def)
  from h2 have h2': \<open>parse_json ''[\<newline>{"a":1}\<newline>]\<newline>'' = Some (JArray [JObject [(''a'', JNumber 1)]])\<close>
    by simp
  from h1 h2' c1' p1' c2' p2' show ?thesis
    by blast
qed

section \<open>Properties of the robot delete command\<close>

lemma find_robot_Force:
  "Force c \<Longrightarrow> find_robot c account idp rs =
     Inr (if matches c rs = [] then idp else Some (ID (last (matches c rs))))"
  by (induction rs arbitrary: idp) (auto simp: matches_def)

lemma find_robot_no_Force_remembered:
  "\<not> Force c \<Longrightarrow> idp \<noteq> None \<Longrightarrow> matches c rs \<noteq> [] \<Longrightarrow>
     find_robot c account idp rs = Inl (errMultipleRobotFmt (deleteCmd.Name c) account)"
  by (induction rs arbitrary: idp) (auto simp: matches_def)

lemma find_robot_no_Force_several:
  "\<not> Force c \<Longrightarrow> 1 < length (matches c rs) \<Longrightarrow>
     find_robot c account idp rs = Inl (errMultipleRobotFmt (deleteCmd.Name c) account)"
proof (induction rs arbitrary: idp)
  case Nil
  then show ?case by (simp add: matches_def)
next
  case (Cons r rs)
  show ?case
  proof (cases "Robot.Name r = deleteCmd.Name c")
    case True
    with Cons.prems have ne: "matches c rs \<noteq> []"
      by (auto simp: matches_def)
    show ?thesis
    proof (cases "idp = None")
      case True
      with \<open>Robot.Name r = deleteCmd.Name c\<close> Cons.prems(1) ne show ?thesis
        by (simp add: find_robot_no_Force_remembered)
    next
      case False
      with \<open>Robot.Name r = deleteCmd.Name c\<close> Cons.prems(1) show ?thesis
        by simp
    qed
  next
    case False
    with Cons show ?thesis by (simp add: matches_def)
  qed
qed

text \<open>
  C10. Let the listing hold more than one robot with the requested name. With \<open>Force\<close>,
  \<open>Run\<close> calls \<^verbatim>\<open>rc.Delete\<close> exactly once, with the identifier of the last such robot of the
  listing, and returns what that call returns (so never the error of the ambiguity).
  Without \<open>Force\<close>, \<open>Run\<close> returns the error \<^verbatim>\<open>found multiple robots\<close>, calls \<^verbatim>\<open>rc.Delete\<close>
  not at all and prints nothing.
\<close>

theorem C10_delete_with_several_matches:
  assumes "1 < length (matches c rs)"
  shows "(Force c \<longrightarrow>
            fst (Run c (Inr rs) Delete account) = Delete (ID (last (matches c rs))) \<and>
            fst (snd (Run c (Inr rs) Delete account)) = [ID (last (matches c rs))]) \<and>
         (\<not> Force c \<longrightarrow>
            Run c (Inr rs) Delete account
              = (Some (errMultipleRobotFmt (deleteCmd.Name c) account), [], []))"
proof (intro conjI impI)
  from assms have ne: "matches c rs \<noteq> []" and rs: "length rs \<noteq> 0"
    by (auto simp: matches_def)
  {
    assume f: "Force c"
    from find_robot_Force[OF f, of account None rs] ne
    have fr: "find_robot c account None rs = Inr (Some (ID (last (matches c rs))))"
      by simp
    with rs show "fst (Run c (Inr rs) Delete account) = Delete (ID (last (matches c rs)))"
      by (cases "Delete (ID (last (matches c rs)))") (simp_all add: Run_def)
    from fr rs show "fst (snd (Run c (Inr rs) Delete account)) = [ID (last (matches c rs))]"
      by (cases "Delete (ID (last (matches c rs)))") (simp_all add: Run_def)
  }
  {
    assume nf: "\<not> Force c"
    from find_robot_no_Force_several[OF nf assms, of account None] rs
    show "Run c (Inr rs) Delete account
              = (Some (errMultipleRobotFmt (deleteCmd.Name c) account), [], [])"
      by (simp add: Run_def)
  }
qed

text \<open>
  The theorem on a listing of five robots, three of them named \<^verbatim>\<open>ci\<close>.
\<close>

theorem C10_delete_with_several_matches_witness:
  "fst (Run \<lparr>deleteCmd.Name = ''ci'', Force = True\<rparr>
         (Inr [\<lparr>Robot.Name = ''ci'', ID = ''id-1''\<rparr>, \<lparr>Robot.Name = ''dev'', ID = ''id-2''\<rparr>,
               \<lparr>Robot.Name = ''ci'', ID = ''id-3''\<rparr>, \<lparr>Robot.Name = ''ci'', ID = ''id-4''\<rparr>,
               \<lparr>Robot.Name = ''ops'', ID = ''id-5''\<rparr>])
         (\<lambda>u. None) ''acme'') = None \<and>
   fst (snd (Run \<lparr>deleteCmd.Name = ''ci'', Force = True\<rparr>
         (Inr [\<lparr>Robot.Name = ''ci'', ID = ''id-1''\<rparr>, \<lparr>Robot.Name = ''dev'', ID = ''id-2''\<rparr>,
               \<lparr>Robot.Name = ''ci'', ID = ''id-3''\<rparr>, \<lparr>Robot.Name = ''ci'', ID = ''id-4''\<rparr>,
               \<lparr>Robot.Name = ''ops'', ID = ''id-5''\<rparr>])
         (\<lambda>u. None) ''acme'')) = [''id-4''] \<and>
   Run \<lparr>deleteCmd.Name = ''ci'', Force = False\<rparr>
         (Inr [\<lparr>Robot.Name = ''ci'', ID = ''id-1''\<rparr>, \<lparr>Robot.Name = ''dev'', ID = ''id-2''\<rparr>,
               \<lparr>Robot.Name = ''ci'', ID = ''id-3''\<rparr>, \<lparr>Robot.Name = ''ci'', ID = ''id-4''\<rparr>,
               \<lparr>Robot.Name = ''ops'', ID = ''id-5''\<rparr>])
         (\<lambda>u. None) ''acme''
     = (Some (Error ''found multiple robots with name ci in acme''), [], [])"
proof -
  let ?rs = "[\<lparr>Robot.Name = ''ci'', ID = ''id-1''\<rparr>, \<lparr>Robot.Name = ''dev'', ID = ''id-2''\<rparr>,
               \<lparr>Robot.Name = ''ci'', ID = ''id-3''\<rparr>, \<lparr>Robot.Name = ''ci'', ID = ''id-4''\<rparr>,
               \<lparr>Robot.Name = ''ops'', ID = ''id-5''\<rparr>]"
  let ?cT = "\<lparr>deleteCmd.Name = ''ci'', Force = True\<rparr>"
  let ?cF = "\<lparr>deleteCmd.Name = ''ci'', Force = False\<rparr>"
  have mT: "matches ?cT ?rs = [\<lparr>Robot.Name = ''ci'', ID = ''id-1''\<rparr>,
      \<lparr>Robot.Name = ''ci'', ID = ''id-3''\<rparr>, \<lparr>Robot.Name = ''ci'', ID = ''id-4''\<rparr>]"
    by (simp add: matches_def)
  have mF: "matches ?cF ?rs = [\<lparr>Robot.Name = ''ci'', ID = ''id-1''\<rparr>,
      \<lparr>Robot.Name = ''ci'', ID = ''id-3''\<rparr>, \<lparr>Robot.Name = ''ci'', ID = ''id-4''\<rparr>]"
    by (simp add: matches_def)
  have hT: "1 < length (matches ?cT ?rs)" by (simp add: mT)
  have hF: "1 < length (matches ?cF ?rs)" by (simp add: mF)
  from C10_delete_with_several_matches[OF hT, of "\<lambda>u. None" "''acme''"]
  have t: "fst (Run ?cT (Inr ?rs) (\<lambda>u. None) ''acme'') = None \<and>
           fst (snd (Run ?cT (Inr ?rs) (\<lambda>u. None) ''acme'')) = [''id-4'']"
    by (simp add: mT)
  from C10_delete_with_several_matches[OF hF, of "\<lambda>u. None" "''acme''"]
  have f: "Run ?cF (Inr ?rs) (\<lambda>u. None) ''acme''
     = (Some (Error ''found multiple robots with name ci in acme''), [], [])"
    by (simp add: errMultipleRobotFmt_def)
  from t f show ?thesis by blast
qed

end
